theory Spec2Isabelle
  imports Main
begin

section \<open>Python strings\<close>

text \<open>
  A Python \<open>str\<close> is modelled as a \<open>string\<close>: a list of characters whose code
  points are below 256. On that range the decimal digits recognised by the regular
  expression classes \<open>\d\<close> and \<open>\D\<close> are exactly \<open>0\<close> to \<open>9\<close>, and the characters
  that \<open>str.strip\<close> and \<open>str.rstrip\<close> remove are the twelve listed in \<open>is_space\<close>.
\<close>

definition nl :: char where
  "nl = CHR 0x0A"

definition dquote :: char where
  "dquote = CHR 0x22"

definition backslash :: char where
  "backslash = CHR 0x5C"

definition is_digit :: "char \<Rightarrow> bool" where
  "is_digit c = (c \<in> set ''0123456789'')"

definition is_space :: "char \<Rightarrow> bool" where
  "is_space c = (c \<in> set [CHR 0x09, CHR 0x0A, CHR 0x0B, CHR 0x0C, CHR 0x0D,
     CHR 0x1C, CHR 0x1D, CHR 0x1E, CHR 0x1F, CHR 0x20, CHR 0x85, CHR 0xA0])"

definition lstrip :: "string \<Rightarrow> string" where
  "lstrip s = dropWhile is_space s"

definition rstrip :: "string \<Rightarrow> string" where
  "rstrip s = rev (dropWhile is_space (rev s))"

definition strip :: "string \<Rightarrow> string" where
  "strip s = lstrip (rstrip s)"

definition ends_with :: "string \<Rightarrow> string \<Rightarrow> bool" where
  "ends_with s t = (length t \<le> length s \<and> drop (length s - length t) s = t)"

text \<open>\<open>sep.join(xs)\<close>.\<close>

fun join :: "string \<Rightarrow> string list \<Rightarrow> string" where
  "join sep [] = []"
| "join sep [x] = x"
| "join sep (x # y # ys) = x @ sep @ join sep (y # ys)"

text \<open>\<open>s.split(sep)\<close> for a separator of one character, which is what every call
  in the script passes (\<open>","\<close>, \<open>";"\<close> and \<open>"/"\<close>).\<close>

fun split_char :: "char \<Rightarrow> string \<Rightarrow> string list" where
  "split_char sep [] = [[]]"
| "split_char sep (c # cs) =
     (if c = sep then [] # split_char sep cs
      else (case split_char sep cs of
              [] \<Rightarrow> [[c]]
            | p # ps \<Rightarrow> (c # p) # ps))"

text \<open>\<open>s.replace(c, t)\<close> for a pattern \<open>c\<close> of one character.\<close>

definition replace_char :: "char \<Rightarrow> string \<Rightarrow> string \<Rightarrow> string" where
  "replace_char c t s = concat (map (\<lambda>x. if x = c then t else [x]) s)"

text \<open>\<open>s.zfill(width)\<close>: nothing happens when the string is already wide enough;
  a leading sign stays in front of the padding.\<close>

definition zfill :: "int \<Rightarrow> string \<Rightarrow> string" where
  "zfill width s =
     (if width \<le> int (length s) then s
      else (let pad = replicate (nat (width - int (length s))) (CHR ''0'') in
            case s of
              [] \<Rightarrow> pad
            | c # cs \<Rightarrow> if c = CHR ''+'' \<or> c = CHR ''-'' then c # pad @ cs else pad @ s))"

text \<open>Decimal rendering of integers, \<open>str(n)\<close>, and reading of a digit string,
  \<open>int(s)\<close>.\<close>

definition digit_char :: "nat \<Rightarrow> char" where
  "digit_char d = ''0123456789'' ! (d mod 10)"

fun show_nat :: "nat \<Rightarrow> string" where
  "show_nat n = (if n < 10 then [digit_char n] else show_nat (n div 10) @ [digit_char (n mod 10)])"

declare show_nat.simps [simp del]

definition show_int :: "int \<Rightarrow> string" where
  "show_int i = (if i < 0 then CHR ''-'' # show_nat (nat (- i)) else show_nat (nat i))"

definition digit_val :: "char \<Rightarrow> nat" where
  "digit_val c = of_char c - 48"

definition read_nat :: "string \<Rightarrow> nat" where
  "read_nat s = foldl (\<lambda>acc c. 10 * acc + digit_val c) 0 s"

text \<open>Zero-padded fields of \<open>isoformat\<close> and of \<open>str\<close> on a datetime (\<open>%04d\<close>,
  \<open>%02d\<close>, \<open>%06d\<close> on non-negative numbers).\<close>

definition pad_nat :: "nat \<Rightarrow> nat \<Rightarrow> string" where
  "pad_nat w n = replicate (w - length (show_nat n)) (CHR ''0'') @ show_nat n"

section \<open>Python values\<close>

text \<open>
  The values a worksheet cell can hold. A date and a datetime are the fields of the
  Python object. A float is given by what the script observes of it: its \<open>str\<close>, and
  the integer it equals when \<open>is_integer()\<close> holds.
\<close>

record pydate =
  year :: nat
  month :: nat
  day :: nat

record pytime =
  hour :: nat
  minute :: nat
  second :: nat
  microsecond :: nat

record pyfloat =
  float_repr :: string
  float_int :: "int option"

datatype pyval =
    PNone
  | PBool bool
  | PInt int
  | PFloat pyfloat
  | PStr string
  | PDate pydate
  | PDateTime pydate pytime

text \<open>What \<open>to_yaml_value\<close> and the front matter dictionary hold: a scalar or a list.\<close>

datatype pyobj =
    Val pyval
  | ListOf "pyval list"

text \<open>
  The exceptions the script can end with. \<open>MissingId\<close> and \<open>InvalidId\<close> are the two
  \<open>ValueError\<close>s raised by \<open>slug_id\<close> (the specification's \<open>InvalidIdentifier\<close>),
  \<open>InvalidDate y m d\<close> is the \<open>ValueError\<close> of \<open>datetime.date(y, m, d)\<close>, \<open>FormatError\<close>
  is whatever \<open>str.format\<close> raises on the permalink pattern, \<open>SheetEmpty\<close> is the
  \<open>SystemExit\<close> for a sheet without rows, and the last two come from the file system.
\<close>

datatype pyerror =
    MissingId
  | InvalidId
  | InvalidDate nat nat nat
  | FormatError
  | SheetEmpty
  | FileExistsError string
  | IsADirectoryError string

definition isoformat :: "pydate \<Rightarrow> string" where
  "isoformat d = pad_nat 4 (year d) @ ''-'' @ pad_nat 2 (month d) @ ''-'' @ pad_nat 2 (day d)"

definition time_str :: "pytime \<Rightarrow> string" where
  "time_str t =
     pad_nat 2 (hour t) @ '':'' @ pad_nat 2 (minute t) @ '':'' @ pad_nat 2 (second t)
     @ (if microsecond t = 0 then [] else ''.'' @ pad_nat 6 (microsecond t))"

text \<open>\<open>str(v)\<close>.\<close>

fun py_str :: "pyval \<Rightarrow> string" where
  "py_str PNone = ''None''"
| "py_str (PBool b) = (if b then ''True'' else ''False'')"
| "py_str (PInt i) = show_int i"
| "py_str (PFloat f) = float_repr f"
| "py_str (PStr s) = s"
| "py_str (PDate d) = isoformat d"
| "py_str (PDateTime d t) = isoformat d @ '' '' @ time_str t"

text \<open>Truth value of a cell in \<open>if v\<close> and \<open>v or w\<close>.\<close>

fun truthy :: "pyval \<Rightarrow> bool" where
  "truthy PNone = False"
| "truthy (PBool b) = b"
| "truthy (PInt i) = (i \<noteq> 0)"
| "truthy (PFloat f) = (float_int f \<noteq> Some 0)"
| "truthy (PStr s) = (s \<noteq> [])"
| "truthy (PDate d) = True"
| "truthy (PDateTime d t) = True"

text \<open>The float with the integer value \<open>n\<close>, for \<open>n\<close> of fewer than 17 digits, which
  Python prints with the fraction \<open>.0\<close>.\<close>

definition float_of_int :: "int \<Rightarrow> pyfloat" where
  "float_of_int n = \<lparr>float_repr = show_int n @ ''.0'', float_int = Some n\<rparr>"

section \<open>Helpers: identifiers\<close>

text \<open>
  \<open>re.sub(r"\.0$", "", s)\<close>. Without the multi-line flag \<open>$\<close> matches at the end of
  the string and just before a newline that ends it.
\<close>

definition sub_dot0 :: "string \<Rightarrow> string" where
  "sub_dot0 s =
     (if ends_with s ''.0'' then take (length s - 2) s
      else if ends_with s (''.0'' @ [nl]) then take (length s - 3) s @ [nl]
      else s)"

text \<open>\<open>re.sub(r"\D", "", s)\<close>.\<close>

definition digits_only :: "string \<Rightarrow> string" where
  "digits_only s = filter is_digit s"

definition slug_id :: "pyval \<Rightarrow> int \<Rightarrow> pyerror + string" where
  "slug_id raw width =
     (if raw = PNone then Inl MissingId
      else (let s = strip (py_str raw);
                s = sub_dot0 s;
                s = digits_only s
            in if s = [] then Inl InvalidId else Inr (zfill width s)))"

text \<open>The algorithm as the specification words it: convert to a string, strip a
  trailing \<open>.0\<close>, remove every non-digit, fail if nothing is left, pad.\<close>

definition normalize_id_spec :: "pyval \<Rightarrow> int \<Rightarrow> pyerror + string" where
  "normalize_id_spec raw width =
     (let s = py_str raw;
          s = (if ends_with s ''.0'' then take (length s - 2) s else s);
          s = filter is_digit s
      in if s = [] then Inl InvalidId else Inr (zfill width s))"

section \<open>Helpers: dates\<close>

definition is_leap :: "nat \<Rightarrow> bool" where
  "is_leap y = (y mod 4 = 0 \<and> (y mod 100 \<noteq> 0 \<or> y mod 400 = 0))"

definition days_in_month :: "nat \<Rightarrow> nat \<Rightarrow> nat" where
  "days_in_month y m =
     (if m = 2 then (if is_leap y then 29 else 28)
      else if m = 4 \<or> m = 6 \<or> m = 9 \<or> m = 11 then 30
      else 31)"

text \<open>\<open>datetime.date(y, m, d)\<close>: a \<open>ValueError\<close> unless the year is in 1..9999, the
  month in 1..12 and the day in that month.\<close>

definition date_new :: "nat \<Rightarrow> nat \<Rightarrow> nat \<Rightarrow> pyerror + pydate" where
  "date_new y m d =
     (if 1 \<le> y \<and> y \<le> 9999 \<and> 1 \<le> m \<and> m \<le> 12 \<and> 1 \<le> d \<and> d \<le> days_in_month y m
      then Inr \<lparr>year = y, month = m, day = d\<rparr>
      else Inl (InvalidDate y m d))"

definition all_digits :: "string \<Rightarrow> bool" where
  "all_digits s = list_all is_digit s"

text \<open>
  \<open>re.match(r"^(\d{4})-(\d{1,2})-(\d{1,2})$", s)\<close>: the three groups when the string
  matches. \<open>$\<close> also matches just before a newline that ends the string.
\<close>

definition match_ymd :: "string \<Rightarrow> (string \<times> string \<times> string) option" where
  "match_ymd s =
     (let t = (if s \<noteq> [] \<and> last s = nl then butlast s else s) in
      case split_char (CHR ''-'') t of
        [y, mo, d] \<Rightarrow>
          if length y = 4 \<and> all_digits y
             \<and> 1 \<le> length mo \<and> length mo \<le> 2 \<and> all_digits mo
             \<and> 1 \<le> length d \<and> length d \<le> 2 \<and> all_digits d
          then Some (y, mo, d) else None
      | _ \<Rightarrow> None)"

definition parse_date :: "pyval \<Rightarrow> pyerror + string option" where
  "parse_date raw =
     (if raw = PNone \<or> strip (py_str raw) = [] then Inr None
      else (case raw of
              PDateTime d t \<Rightarrow> Inr (Some (isoformat d))
            | PDate d \<Rightarrow> Inr (Some (isoformat d))
            | _ \<Rightarrow>
               (let s = strip (py_str raw) in
                case match_ymd s of
                  Some (y, mo, d) \<Rightarrow>
                    (case date_new (read_nat y) (read_nat mo) (read_nat d) of
                       Inl e \<Rightarrow> Inl e
                     | Inr dd \<Rightarrow> Inr (Some (isoformat dd)))
                | None \<Rightarrow> Inr (Some s))))"

section \<open>Helpers: lists and YAML values\<close>

definition parse_list :: "pyval \<Rightarrow> char \<Rightarrow> string list" where
  "parse_list raw sep =
     (if raw = PNone then []
      else (let s = strip (py_str raw) in
            if s = [] then []
            else map strip (filter (\<lambda>item. strip item \<noteq> []) (split_char sep s))))"

definition yaml_quote :: "string \<Rightarrow> string" where
  "yaml_quote s =
     (let s = replace_char dquote [backslash, dquote]
                (replace_char backslash [backslash, backslash] s)
      in [dquote] @ s @ [dquote])"

fun to_yaml_value :: "pyobj \<Rightarrow> string" where
  "to_yaml_value (Val (PBool b)) = (if b then ''true'' else ''false'')"
| "to_yaml_value (Val PNone) = ''null''"
| "to_yaml_value (Val (PInt i)) = show_int i"
| "to_yaml_value (Val (PFloat f)) =
     (case float_int f of Some n \<Rightarrow> show_int n | None \<Rightarrow> float_repr f)"
| "to_yaml_value (ListOf []) = ''[]''"
| "to_yaml_value (ListOf (x # xs)) =
     ''['' @ join '', '' (map (\<lambda>x. yaml_quote (py_str x)) (x # xs)) @ '']''"
| "to_yaml_value (Val v) = yaml_quote (py_str v)"

text \<open>The loop of \<open>build_front_matter\<close> over the dictionary, in insertion order: the
  lines appended between the two \<open>---\<close> markers.\<close>

fun front_matter_entries :: "(string \<times> pyobj) list \<Rightarrow> string list" where
  "front_matter_entries [] = []"
| "front_matter_entries ((k, v) # items) =
     (if v = Val PNone then front_matter_entries items
      else (k @ '': '' @ to_yaml_value v) # front_matter_entries items)"

definition build_front_matter :: "(string \<times> pyobj) list \<Rightarrow> string" where
  "build_front_matter items =
     join [nl] ([''---''] @ front_matter_entries items @ [''---'']) @ [nl]"

section \<open>Main program\<close>

text \<open>
  The command line arguments the loop reads. \<open>output_dir\<close> is the path after
  \<open>expanduser\<close>, \<open>write_mode\<close> is \<open>args.write\<close>.
\<close>

record args =
  output_dir :: string
  id_col :: string
  title_col :: string
  date_col :: string
  layout :: string
  permalink :: string
  assets_base :: string
  attachments_col :: string
  tags_col :: string
  notes_col :: string
  write_mode :: bool
  force :: bool

text \<open>
  What the run takes from the Python runtime: the ISO form of \<open>date.today()\<close>, and
  \<open>pattern.format(id=wid)\<close> as a function of the pattern and the identifier, \<open>None\<close>
  where \<open>str.format\<close> raises.
\<close>

record env =
  today :: string
  format_id :: "string \<Rightarrow> string \<Rightarrow> string option"

text \<open>
  The state a run changes: the regular files with their text, the directories, the
  lines printed, and the two counters of \<open>main\<close>.
\<close>

record state =
  files :: "string \<rightharpoonup> string"
  dirs :: "string set"
  out :: "string list"
  written :: nat
  skipped :: nat

text \<open>\<open>headers\<close> and \<open>header_index\<close>: the dictionary comprehension keeps, for a name
  that occurs twice, the later index.\<close>

definition headers_of :: "pyval list \<Rightarrow> string list" where
  "headers_of row0 = map (\<lambda>h. if h \<noteq> PNone then strip (py_str h) else []) row0"

fun index_headers :: "nat \<Rightarrow> string list \<Rightarrow> (string \<rightharpoonup> nat) \<Rightarrow> (string \<rightharpoonup> nat)" where
  "index_headers i [] m = m"
| "index_headers i (h # hs) m = index_headers (Suc i) hs (if h \<noteq> [] then m(h \<mapsto> i) else m)"

definition header_index :: "pyval list \<Rightarrow> (string \<rightharpoonup> nat)" where
  "header_index row0 = index_headers 0 (headers_of row0) Map.empty"

definition cell :: "(string \<rightharpoonup> nat) \<Rightarrow> pyval list \<Rightarrow> string \<Rightarrow> pyval" where
  "cell hi row col_name =
     (case hi col_name of
        None \<Rightarrow> PNone
      | Some i \<Rightarrow> if length row \<le> i then PNone else row ! i)"

text \<open>The file system calls. \<open>path_chain p\<close> is \<open>p\<close> with its ancestors, which
  \<open>mkdir(parents=True, exist_ok=True)\<close> creates unless one of them is a regular file.\<close>

definition path_join :: "string \<Rightarrow> string \<Rightarrow> string" where
  "path_join d name = d @ ''/'' @ name"

definition path_chain :: "string \<Rightarrow> string list" where
  "path_chain p =
     (let cs = split_char (CHR ''/'') p in
      filter (\<lambda>q. q \<noteq> []) (map (\<lambda>k. join ''/'' (take k cs)) [1..<Suc (length cs)]))"

definition mkdir_parents :: "string \<Rightarrow> state \<Rightarrow> pyerror + state" where
  "mkdir_parents p st =
     (if list_ex (\<lambda>q. files st q \<noteq> None) (path_chain p) then Inl (FileExistsError p)
      else Inr (st\<lparr>dirs := dirs st \<union> set (path_chain p)\<rparr>))"

definition path_exists :: "state \<Rightarrow> string \<Rightarrow> bool" where
  "path_exists st p = (files st p \<noteq> None \<or> p \<in> dirs st)"

definition write_text :: "string \<Rightarrow> string \<Rightarrow> state \<Rightarrow> pyerror + state" where
  "write_text p content st =
     (if p \<in> dirs st then Inl (IsADirectoryError p)
      else Inr (st\<lparr>files := (files st)(p \<mapsto> content)\<rparr>))"

text \<open>The test at the head of the loop body: the row has no id or no title.\<close>

definition row_missing :: "args \<Rightarrow> (string \<rightharpoonup> nat) \<Rightarrow> pyval list \<Rightarrow> bool" where
  "row_missing a hi r =
     (let raw_id = cell hi r (id_col a); raw_title = cell hi r (title_col a) in
      raw_id = PNone \<or> raw_title = PNone \<or> strip (py_str raw_title) = [])"

text \<open>\<open>str(v).strip() if v else None\<close>.\<close>

definition opt_field :: "pyval \<Rightarrow> pyobj" where
  "opt_field v = (if truthy v then Val (PStr (strip (py_str v))) else Val PNone)"

text \<open>The identifier \<open>wid\<close> and the dictionary \<open>fm\<close> of a row, with the permalink entry
  when a pattern is given. The identifier and the two dates are normalised first, in the
  order of the script.\<close>

definition row_front_matter ::
  "args \<Rightarrow> env \<Rightarrow> (string \<rightharpoonup> nat) \<Rightarrow> pyval list
     \<Rightarrow> pyerror + string \<times> (string \<times> pyobj) list" where
  "row_front_matter a e hi r =
     (case slug_id (cell hi r (id_col a)) 5 of
        Inl err \<Rightarrow> Inl err
      | Inr wid \<Rightarrow>
     (let title = strip (py_str (cell hi r (title_col a))) in
      case parse_date (cell hi r (date_col a)) of
        Inl err \<Rightarrow> Inl err
      | Inr d \<Rightarrow>
     (let date_val = (case d of None \<Rightarrow> today e | Some s \<Rightarrow> if s = [] then today e else s) in
      case parse_date (cell hi r ''catalogue_date'') of
        Inl err \<Rightarrow> Inl err
      | Inr catalogue_date \<Rightarrow>
     (let tags = parse_list (cell hi r (tags_col a)) (CHR '','');
          fm = [(''title'', Val (PStr title)),
                (''date'', Val (PStr date_val)),
                (''layout'', if truthy (cell hi r ''layout'')
                             then Val (PStr (strip (py_str (cell hi r ''layout''))))
                             else Val (PStr (layout a))),
                (''work_id'', Val (PStr wid)),
                (''catalogue_date'',
                   (case catalogue_date of None \<Rightarrow> Val PNone | Some s \<Rightarrow> Val (PStr s))),
                (''series'', opt_field (cell hi r ''series'')),
                (''medium'', opt_field (cell hi r ''medium'')),
                (''dimensions'', opt_field (cell hi r ''dimensions'')),
                (''primary'', opt_field (cell hi r ''primary'')),
                (''thumb'', opt_field (cell hi r ''thumb'')),
                (''tags'', if tags \<noteq> [] then ListOf (map PStr tags) else Val PNone)]
      in if permalink a \<noteq> [] then
           (case format_id e (permalink a) wid of
              None \<Rightarrow> Inl FormatError
            | Some pl \<Rightarrow> Inr (wid, fm @ [(''permalink'', Val (PStr pl))]))
         else Inr (wid, fm)))))"

text \<open>\<open>body_lines\<close>: the notes and the list of supplements.\<close>

definition body_lines :: "args \<Rightarrow> (string \<rightharpoonup> nat) \<Rightarrow> pyval list \<Rightarrow> string \<Rightarrow> string list" where
  "body_lines a hi r wid =
     (let attachments = parse_list (cell hi r (attachments_col a)) (CHR '';'');
          attachment_urls = map (\<lambda>fname. assets_base a @ ''/'' @ wid @ ''/files/'' @ fname) attachments;
          notes = cell hi r (notes_col a);
          ls1 = (if truthy notes \<and> strip (py_str notes) \<noteq> [] then [strip (py_str notes), []] else []);
          ls2 = (if attachment_urls \<noteq> [] then
                   [''## Supplements'']
                   @ map (\<lambda>url. ''- ['' @ last (split_char (CHR ''/'') url) @ '']('' @ url @ '')'') attachment_urls
                   @ [[]]
                 else [])
      in ls1 @ ls2)"

text \<open>The identifier and the text of the file of a row that has an id and a title.\<close>

definition row_document ::
  "args \<Rightarrow> env \<Rightarrow> (string \<rightharpoonup> nat) \<Rightarrow> pyval list \<Rightarrow> pyerror + (string \<times> string)" where
  "row_document a e hi r =
     (case row_front_matter a e hi r of
        Inl err \<Rightarrow> Inl err
      | Inr (wid, fm) \<Rightarrow>
          Inr (wid, build_front_matter fm @ rstrip (join [nl] (body_lines a hi r wid)) @ [nl]))"

text \<open>One turn of the loop. Every exception of a row is raised before the row
  changes the state, so a row gives an error or the next state.\<close>

definition process_row ::
  "args \<Rightarrow> env \<Rightarrow> (string \<rightharpoonup> nat) \<Rightarrow> pyval list \<Rightarrow> state \<Rightarrow> pyerror + state" where
  "process_row a e hi r st =
     (if row_missing a hi r then Inr (st\<lparr>skipped := skipped st + 1\<rparr>)
      else (case row_document a e hi r of
              Inl err \<Rightarrow> Inl err
            | Inr (wid, content) \<Rightarrow>
               (let out_path = path_join (output_dir a) (wid @ ''.md'');
                    exists = path_exists st out_path
                in if exists \<and> \<not> force a then
                     Inr (st\<lparr>out := out st @ [''SKIP (exists): '' @ out_path],
                              skipped := skipped st + 1\<rparr>)
                   else if write_mode a then
                     (case write_text out_path content st of
                        Inl err \<Rightarrow> Inl err
                      | Inr st' \<Rightarrow>
                          Inr (st'\<lparr>out := out st' @ [''WRITE: '' @ out_path],
                                   written := written st' + 1\<rparr>))
                   else
                     Inr (st\<lparr>out := out st @ [''DRY-RUN: would write '' @ out_path
                                 @ '' (overwrite='' @ py_str (PBool exists) @ '')''],
                              written := written st + 1\<rparr>))))"

text \<open>The loop over the data rows: it stops at the first exception, and what was
  written before stays written.\<close>

fun run_rows ::
  "args \<Rightarrow> env \<Rightarrow> (string \<rightharpoonup> nat) \<Rightarrow> pyval list list \<Rightarrow> state \<Rightarrow> pyerror option \<times> state" where
  "run_rows a e hi [] st = (None, st)"
| "run_rows a e hi (r # rs) st =
     (case process_row a e hi r st of
        Inl err \<Rightarrow> (Some err, st)
      | Inr st' \<Rightarrow> run_rows a e hi rs st')"

text \<open>\<open>main\<close> from the rows of the sheet on: the exception it ends with, if any, and
  the final state.\<close>

definition main :: "args \<Rightarrow> env \<Rightarrow> pyval list list \<Rightarrow> state \<Rightarrow> pyerror option \<times> state" where
  "main a e rows st =
     (case rows of
        [] \<Rightarrow> (Some SheetEmpty, st)
      | row0 # data \<Rightarrow>
          (case mkdir_parents (output_dir a) st of
             Inl err \<Rightarrow> (Some err, st)
           | Inr st1 \<Rightarrow>
               (case run_rows a e (header_index row0) data (st1\<lparr>written := 0, skipped := 0\<rparr>) of
                  (Some err, st2) \<Rightarrow> (Some err, st2)
                | (None, st2) \<Rightarrow>
                    (None, st2\<lparr>out := out st2 @
                       [[nl] @ ''Done. '' @ (if \<not> write_mode a then ''Would write'' else ''Wrote'')
                        @ '': '' @ show_nat (written st2) @ ''. Skipped: ''
                        @ show_nat (skipped st2) @ ''.'']\<rparr>))))"

text \<open>The number of newline characters that end a text.\<close>

definition trailing_newlines :: "string \<Rightarrow> nat" where
  "trailing_newlines s = length (takeWhile (\<lambda>c. c = nl) (rev s))"

text \<open>The defaults of the argument parser: a dry run into \<open>works\<close>, no overwriting, no
  permalink pattern.\<close>

definition default_args :: args where
  "default_args =
     \<lparr>output_dir = ''works'', id_col = ''id'', title_col = ''title'', date_col = ''date'',
      layout = ''theme'', permalink = [], assets_base = ''/assets/works'',
      attachments_col = ''attachments'', tags_col = ''tags'', notes_col = ''notes'',
      write_mode = False, force = False\<rparr>"

text \<open>A run on some day, with no use of \<open>str.format\<close>, from an empty file system.\<close>

definition some_env :: env where
  "some_env = \<lparr>today = ''2024-06-01'', format_id = (\<lambda>pattern wid. None)\<rparr>"

definition empty_state :: state where
  "empty_state = \<lparr>files = Map.empty, dirs = {}, out = [], written = 0, skipped = 0\<rparr>"

section \<open>Facts about the string helpers\<close>

lemma digit_not_space: "is_digit c \<Longrightarrow> \<not> is_space c"
  by (auto simp: is_digit_def is_space_def)

lemma digit_not_sign:
  "is_digit c \<Longrightarrow> c \<noteq> CHR ''+'' \<and> c \<noteq> CHR ''-'' \<and> c \<noteq> CHR ''.'' \<and> c \<noteq> nl"
  by (auto simp: is_digit_def nl_def)

lemma is_digit_0: "is_digit (CHR ''0'')"
  by (simp add: is_digit_def)

lemma is_space_nl: "is_space nl"
  by (simp add: is_space_def nl_def)

lemma rstrip_id: "s = [] \<or> \<not> is_space (last s) \<Longrightarrow> rstrip s = s"
  by (cases s rule: rev_cases) (auto simp: rstrip_def)

lemma lstrip_id: "s = [] \<or> \<not> is_space (hd s) \<Longrightarrow> lstrip s = s"
  by (cases s) (auto simp: lstrip_def)

lemma rstrip_last: "rstrip s = [] \<or> \<not> is_space (last (rstrip s))"
proof (cases "dropWhile is_space (rev s)")
  case Nil
  then show ?thesis by (simp add: rstrip_def)
next
  case (Cons c cs)
  then have "\<not> is_space c"
    by (metis hd_dropWhile list.sel(1) list.distinct(1))
  with Cons show ?thesis by (simp add: rstrip_def)
qed

lemma lstrip_last: "lstrip s \<noteq> [] \<Longrightarrow> last (lstrip s) = last s"
  unfolding lstrip_def
  by (metis append_Nil2 last_appendR takeWhile_dropWhile_id)

lemma strip_last: "strip s = [] \<or> \<not> is_space (last (strip s))"
proof (cases "strip s = []")
  case True
  then show ?thesis by simp
next
  case False
  then have ne: "lstrip (rstrip s) \<noteq> []" by (simp add: strip_def)
  then have "rstrip s \<noteq> []" by (auto simp: lstrip_def)
  with rstrip_last [of s] have "\<not> is_space (last (rstrip s))" by simp
  with lstrip_last [OF ne] show ?thesis by (simp add: strip_def)
qed

lemma strip_hd: "strip s = [] \<or> \<not> is_space (hd (strip s))"
  unfolding strip_def lstrip_def
  by (metis hd_dropWhile)

lemma strip_strip: "strip (strip s) = strip s"
proof -
  have "rstrip (strip s) = strip s"
    using strip_last [of s] by (rule rstrip_id)
  moreover have "lstrip (strip s) = strip s"
    using strip_hd [of s] by (rule lstrip_id)
  ultimately show ?thesis by (simp add: strip_def)
qed

lemma strip_digits:
  assumes "\<forall>c\<in>set s. is_digit c"
  shows "strip s = s"
proof -
  have "rstrip s = s"
    by (rule rstrip_id) (use assms digit_not_space in auto)
  moreover have "lstrip s = s"
    by (rule lstrip_id) (use assms digit_not_space in \<open>cases s; auto\<close>)
  ultimately show ?thesis by (simp add: strip_def)
qed

lemma ends_with_last: "ends_with s t \<Longrightarrow> t \<noteq> [] \<Longrightarrow> last s = last t"
  unfolding ends_with_def
  by (metis append_take_drop_id last_appendR)

lemma ends_with_set: "ends_with s t \<Longrightarrow> set t \<subseteq> set s"
  unfolding ends_with_def
  by (metis set_drop_subset)

lemma sub_dot0_no_nl:
  "s = [] \<or> last s \<noteq> nl \<Longrightarrow>
   sub_dot0 s = (if ends_with s ''.0'' then take (length s - 2) s else s)"
  using ends_with_last [of s "''.0'' @ [nl]"]
  by (auto simp: sub_dot0_def ends_with_def)

lemma sub_dot0_strip:
  "sub_dot0 (strip s) =
   (if ends_with (strip s) ''.0'' then take (length (strip s) - 2) (strip s) else strip s)"
  using strip_last [of s] is_space_nl by (intro sub_dot0_no_nl) auto

lemma sub_dot0_digits: "\<forall>c\<in>set s. is_digit c \<Longrightarrow> sub_dot0 s = s"
  using ends_with_set [of s "''.0''"] ends_with_set [of s "''.0'' @ [nl]"]
    digit_not_sign [of "CHR ''.''"]
  by (auto simp: sub_dot0_def)

lemma zfill_digits:
  "s \<noteq> [] \<Longrightarrow> \<forall>c\<in>set s. is_digit c \<Longrightarrow>
   zfill w s = replicate (nat (w - int (length s))) (CHR ''0'') @ s"
  using digit_not_sign [of "hd s"]
  by (cases s) (auto simp: zfill_def Let_def)

lemma zfill_length: "w \<le> int (length (zfill w s))"
  by (auto simp: zfill_def Let_def split: list.splits)

lemma zfill_wide: "w \<le> int (length s) \<Longrightarrow> zfill w s = s"
  by (simp add: zfill_def)

lemma rstrip_nonempty: "c \<in> set s \<Longrightarrow> \<not> is_space c \<Longrightarrow> c \<in> set (rstrip s)"
proof (induction s rule: rev_induct)
  case Nil
  then show ?case by simp
next
  case (snoc x xs)
  then show ?case by (auto simp: rstrip_def)
qed

lemma lstrip_nonempty: "c \<in> set s \<Longrightarrow> \<not> is_space c \<Longrightarrow> c \<in> set (lstrip s)"
  by (induction s) (auto simp: lstrip_def)

lemma strip_nonempty: "c \<in> set s \<Longrightarrow> \<not> is_space c \<Longrightarrow> strip s \<noteq> []"
  using lstrip_nonempty [of c "rstrip s"] rstrip_nonempty [of c s]
  by (auto simp: strip_def)

lemma split_char_no_sep: "sep \<notin> set a \<Longrightarrow> split_char sep a = [a]"
  by (induction a) auto

lemma split_char_append:
  "sep \<notin> set a \<Longrightarrow> split_char sep (a @ sep # rest) = a # split_char sep rest"
  by (induction a) auto

lemma split_char_ne: "split_char sep s \<noteq> []"
  by (cases s) (simp_all split: list.splits)

lemma join_split_char: "join [sep] (split_char sep s) = s"
proof (induction s)
  case Nil
  then show ?case by simp
next
  case (Cons c s)
  obtain p ps where sp: "split_char sep s = p # ps"
    using split_char_ne [of sep s] by (cases "split_char sep s") auto
  have ih: "join [sep] (p # ps) = s"
    using Cons.IH unfolding sp .
  show ?case
  proof (cases "c = sep")
    case True
    have "split_char sep (c # s) = [] # p # ps"
      using True sp by simp
    then have "join [sep] (split_char sep (c # s)) = [sep] @ join [sep] (p # ps)"
      by simp
    with ih True show ?thesis by simp
  next
    case False
    have "split_char sep (c # s) = (c # p) # ps"
      using False sp by simp
    moreover have "join [sep] ((c # p) # ps) = c # join [sep] (p # ps)"
      by (cases ps) simp_all
    ultimately show ?thesis using ih by simp
  qed
qed

lemma all_digits_set: "all_digits s \<Longrightarrow> c \<in> set s \<Longrightarrow> is_digit c"
  by (simp add: all_digits_def list_all_iff)

lemma all_digits_no_dash: "all_digits s \<Longrightarrow> CHR ''-'' \<notin> set s"
  using all_digits_set [of s "CHR ''-''"] digit_not_sign [of "CHR ''-''"] by blast

section \<open>Identifiers\<close>

lemma slug_id_Inr:
  "slug_id raw w = Inr s \<longleftrightarrow>
   raw \<noteq> PNone \<and> digits_only (sub_dot0 (strip (py_str raw))) \<noteq> []
   \<and> s = zfill w (digits_only (sub_dot0 (strip (py_str raw))))"
  by (auto simp: slug_id_def Let_def)

lemma slug_id_idem:
  assumes "slug_id raw w = Inr s"
  shows "slug_id (PStr s) w = Inr s"
proof -
  define d where "d = digits_only (sub_dot0 (strip (py_str raw)))"
  from assms have d: "d \<noteq> []" and s: "s = zfill w d"
    by (auto simp: slug_id_Inr d_def)
  have dd: "\<forall>c\<in>set d. is_digit c"
    by (simp add: d_def digits_only_def)
  have s': "s = replicate (nat (w - int (length d))) (CHR ''0'') @ d"
    using zfill_digits [OF d dd] s by simp
  have sd: "\<forall>c\<in>set s. is_digit c"
    using dd is_digit_0 by (auto simp: s')
  have sn: "s \<noteq> []" using d s' by simp
  have "digits_only (sub_dot0 (strip (py_str (PStr s)))) = s"
    using sd by (simp add: strip_digits sub_dot0_digits digits_only_def)
  moreover have "zfill w s = s"
    using zfill_length [of w d] s by (simp add: zfill_wide)
  ultimately show ?thesis
    using sn by (simp add: slug_id_def Let_def)
qed

text \<open>
  Claim C1, as the specification words it: \<open>normalize_id\<close> converts the raw value to a
  string, strips a trailing \<open>.0\<close>, removes every non-digit and pads with zeros. The
  script trims surrounding whitespace before it looks for the \<open>.0\<close> suffix, so on
  \<open>"361.0 "\<close> the suffix is removed and the result is \<open>00361\<close>, where the algorithm as
  worded leaves the suffix in place and gives \<open>03610\<close>.
\<close>

theorem slug_id_untrimmed_counterexample:
  "slug_id (PStr ''361.0 '') 5 = Inr ''00361''
   \<and> normalize_id_spec (PStr ''361.0 '') 5 = Inr ''03610''
   \<and> slug_id (PStr ''361.0 '') 5 \<noteq> normalize_id_spec (PStr ''361.0 '') 5"
  by code_simp

text \<open>
  Claim C1, amended: \<open>slug_id\<close> fails with \<open>MissingId\<close> on an absent value; otherwise it
  converts the value to a string, trims surrounding whitespace, strips one trailing
  \<open>.0\<close>, keeps the digits only, fails with \<open>InvalidId\<close> when no digit remains, and else
  returns the digits with zeros in front up to the width. The three examples of the
  specification hold, the float as well as the integer 361.
\<close>

theorem slug_id_trimmed_normal_form:
  "slug_id raw w =
     (if raw = PNone then Inl MissingId
      else (let t = strip (py_str raw);
                u = (if ends_with t ''.0'' then take (length t - 2) t else t);
                d = filter is_digit u
            in if d = [] then Inl InvalidId
               else Inr (replicate (nat (w - int (length d))) (CHR ''0'') @ d)))
   \<and> slug_id (PStr ''361.0'') 5 = Inr ''00361''
   \<and> slug_id (PInt 361) 5 = Inr ''00361''
   \<and> slug_id (PFloat (float_of_int 361)) 5 = Inr ''00361''
   \<and> slug_id (PStr ''abc'') 5 = Inl InvalidId"
proof -
  have general: "slug_id raw w =
     (if raw = PNone then Inl MissingId
      else (let t = strip (py_str raw);
                u = (if ends_with t ''.0'' then take (length t - 2) t else t);
                d = filter is_digit u
            in if d = [] then Inl InvalidId
               else Inr (replicate (nat (w - int (length d))) (CHR ''0'') @ d)))"
  proof (cases "raw = PNone")
    case True
    then show ?thesis by (simp add: slug_id_def)
  next
    case False
    define d where "d = digits_only (sub_dot0 (strip (py_str raw)))"
    have dd: "\<forall>c\<in>set d. is_digit c"
      by (simp add: d_def digits_only_def)
    have pad: "d \<noteq> [] \<Longrightarrow> zfill w d = replicate (nat (w - int (length d))) (CHR ''0'') @ d"
      using zfill_digits [OF _ dd] by simp
    have "slug_id raw w = (if d = [] then Inl InvalidId else Inr (zfill w d))"
      using False by (simp add: slug_id_def Let_def d_def)
    also have "\<dots> = (if d = [] then Inl InvalidId
                     else Inr (replicate (nat (w - int (length d))) (CHR ''0'') @ d))"
      using pad by simp
    finally show ?thesis
      using False by (simp add: d_def digits_only_def sub_dot0_strip Let_def)
  qed
  have e1: "slug_id (PStr ''361.0'') 5 = Inr ''00361''" by code_simp
  have e2: "slug_id (PInt 361) 5 = Inr ''00361''" by code_simp
  have e3: "slug_id (PFloat (float_of_int 361)) 5 = Inr ''00361''" by code_simp
  have e4: "slug_id (PStr ''abc'') 5 = Inl InvalidId" by code_simp
  from general e1 e2 e3 e4 show ?thesis by blast
qed

theorem slug_id_trimmed_normal_form_witness:
  "slug_id (PStr ''361.0 '') 5 = Inr ''00361'' \<and> slug_id (PStr '' x.0'') 5 = Inl InvalidId"
proof -
  have a: "slug_id (PStr ''361.0 '') 5 = Inr ''00361''"
    using slug_id_trimmed_normal_form [of "PStr ''361.0 ''" 5, THEN conjunct1]
    by (simp add: strip_def lstrip_def rstrip_def is_space_def ends_with_def is_digit_def
        numeral_2_eq_2)
  have b: "slug_id (PStr '' x.0'') 5 = Inl InvalidId"
    using slug_id_trimmed_normal_form [of "PStr '' x.0''" 5, THEN conjunct1]
    by (simp add: strip_def lstrip_def rstrip_def is_space_def ends_with_def is_digit_def
        numeral_2_eq_2)
  from a b show ?thesis by simp
qed

text \<open>
  Claim C9, as stated: on every raw input that contains at least one digit,
  \<open>normalize_id\<close> has an output and returns it unchanged when applied to it. The input
  \<open>".0"\<close> contains a digit, but that digit goes with the stripped suffix and the call
  fails: there is no output to normalise again.
\<close>

theorem slug_id_digit_counterexample:
  "digits_only (py_str (PStr ''.0'')) \<noteq> [] \<and> slug_id (PStr ''.0'') 5 = Inl InvalidId"
  by code_simp

text \<open>
  Claim C9, amended: on every raw input that is present and keeps at least one digit
  once surrounding whitespace is trimmed and a trailing \<open>.0\<close> is stripped, \<open>slug_id\<close>
  returns a string, and applied to that string at the same width it returns it again.
\<close>

theorem slug_id_idempotent:
  assumes "raw \<noteq> PNone"
    and "digits_only (sub_dot0 (strip (py_str raw))) \<noteq> []"
  shows "\<exists>s. slug_id raw w = Inr s \<and> slug_id (PStr s) w = Inr s"
proof -
  from assms obtain s where s: "slug_id raw w = Inr s"
    by (auto simp: slug_id_Inr)
  from slug_id_idem [OF s] s show ?thesis by blast
qed

theorem slug_id_idempotent_witness:
  "PStr ''v1.0'' \<noteq> PNone
   \<and> digits_only (sub_dot0 (strip (py_str (PStr ''v1.0'')))) \<noteq> []
   \<and> (\<exists>s. slug_id (PStr ''v1.0'') 5 = Inr s \<and> slug_id (PStr s) 5 = Inr s)"
proof -
  have h1: "PStr ''v1.0'' \<noteq> PNone" by simp
  have h2: "digits_only (sub_dot0 (strip (py_str (PStr ''v1.0'')))) \<noteq> []" by code_simp
  from h1 h2 slug_id_idempotent [OF h1 h2, of 5] show ?thesis by blast
qed

section \<open>Dates\<close>

lemma isoformat_strip: "strip (isoformat d) \<noteq> []"
  by (rule strip_nonempty [of "CHR ''-''"]) (simp_all add: isoformat_def is_space_def)

lemma isoformat_time_strip: "strip (isoformat d @ '' '' @ time_str t) \<noteq> []"
  by (rule strip_nonempty [of "CHR ''-''"]) (simp_all add: isoformat_def is_space_def)

lemma parse_date_date: "parse_date (PDate d) = Inr (Some (isoformat d))"
  by (simp add: parse_date_def isoformat_strip)

lemma parse_date_datetime: "parse_date (PDateTime d t) = Inr (Some (isoformat d))"
  using isoformat_time_strip [of d t] by (simp add: parse_date_def)

lemma match_ymd_unfold:
  assumes "t = [] \<or> last t \<noteq> nl"
  shows "match_ymd t =
     (case split_char (CHR ''-'') t of
        [y, mo, d] \<Rightarrow>
          if length y = 4 \<and> all_digits y
             \<and> 1 \<le> length mo \<and> length mo \<le> 2 \<and> all_digits mo
             \<and> 1 \<le> length d \<and> length d \<le> 2 \<and> all_digits d
          then Some (y, mo, d) else None
      | _ \<Rightarrow> None)"
proof -
  from assms have "(if t \<noteq> [] \<and> last t = nl then butlast t else t) = t" by auto
  then show ?thesis unfolding match_ymd_def Let_def by simp
qed

lemma split3_shape:
  assumes "all_digits y" "all_digits mo" "all_digits d"
    and "t = y @ ''-'' @ mo @ ''-'' @ d"
  shows "split_char (CHR ''-'') t = [y, mo, d]"
proof -
  have "split_char (CHR ''-'') d = [d]"
    using assms(3) by (simp add: split_char_no_sep all_digits_no_dash)
  then have "split_char (CHR ''-'') (mo @ CHR ''-'' # d) = [mo, d]"
    using assms(2) by (simp add: split_char_append all_digits_no_dash)
  then have "split_char (CHR ''-'') (y @ CHR ''-'' # mo @ CHR ''-'' # d) = [y, mo, d]"
    using assms(1) by (simp add: split_char_append all_digits_no_dash)
  then show ?thesis by (simp add: assms(4))
qed

lemma match_ymd_shape:
  assumes "t = y @ ''-'' @ mo @ ''-'' @ d"
    and "length y = 4" "all_digits y"
    and "1 \<le> length mo" "length mo \<le> 2" "all_digits mo"
    and "1 \<le> length d" "length d \<le> 2" "all_digits d"
    and "t = [] \<or> last t \<noteq> nl"
  shows "match_ymd t = Some (y, mo, d)"
proof -
  have "split_char (CHR ''-'') t = [y, mo, d]"
    using assms(3,6,9,1) by (rule split3_shape)
  then show ?thesis
    unfolding match_ymd_unfold [OF assms(10)] using assms(2-9) by simp
qed

lemma strip_no_nl: "strip s = [] \<or> last (strip s) \<noteq> nl"
  using strip_last [of s] is_space_nl by auto

text \<open>
  Claim C2, as stated: every string that is not blank and does not match the loose
  \<open>YYYY-M-D\<close> pattern is passed through unmodified. The script returns the string with
  its surrounding whitespace trimmed, so \<open>" not a date "\<close> comes back as
  \<open>"not a date"\<close>.
\<close>

theorem parse_date_trims_counterexample:
  "parse_date (PStr '' not a date '') = Inr (Some ''not a date'')
   \<and> parse_date (PStr '' not a date '') \<noteq> Inr (Some '' not a date '')"
  by code_simp

text \<open>
  Claim C2, amended: \<open>parse_date\<close> returns absent for an absent or blank value; it
  gives the ISO form of the calendar date of a date or datetime value; a string that,
  once surrounding whitespace is trimmed, is four digits, a dash, one or two digits, a
  dash and one or two digits is given to the date constructor, which fails with
  \<open>InvalidDate\<close> unless the numbers form a calendar date (month 13 fails) and else
  yields the zero-padded ISO form; every other string is returned with surrounding
  whitespace trimmed and otherwise unchanged. The examples of the specification hold.
\<close>

theorem parse_date_cases:
  "(raw = PNone \<or> strip (py_str raw) = [] \<longrightarrow> parse_date raw = Inr None)
   \<and> parse_date (PDate dd) = Inr (Some (isoformat dd))
   \<and> parse_date (PDateTime dd tt) = Inr (Some (isoformat dd))
   \<and> (strip s = y @ ''-'' @ mo @ ''-'' @ d
        \<and> length y = 4 \<and> all_digits y
        \<and> 1 \<le> length mo \<and> length mo \<le> 2 \<and> all_digits mo
        \<and> 1 \<le> length d \<and> length d \<le> 2 \<and> all_digits d
      \<longrightarrow> parse_date (PStr s) =
           (case date_new (read_nat y) (read_nat mo) (read_nat d) of
              Inl e \<Rightarrow> Inl e
            | Inr x \<Rightarrow> Inr (Some (isoformat x))))
   \<and> (strip s \<noteq> [] \<and> match_ymd (strip s) = None
      \<longrightarrow> parse_date (PStr s) = Inr (Some (strip s)))
   \<and> parse_date (PStr ''2024-3-5'') = Inr (Some ''2024-03-05'')
   \<and> parse_date (PStr ''2024-13-5'') = Inl (InvalidDate 2024 13 5)
   \<and> parse_date (PStr []) = Inr None
   \<and> parse_date (PStr ''not a date'') = Inr (Some ''not a date'')"
proof -
  have c1: "raw = PNone \<or> strip (py_str raw) = [] \<longrightarrow> parse_date raw = Inr None"
    by (simp add: parse_date_def)
  have c4: "strip s = y @ ''-'' @ mo @ ''-'' @ d
        \<and> length y = 4 \<and> all_digits y
        \<and> 1 \<le> length mo \<and> length mo \<le> 2 \<and> all_digits mo
        \<and> 1 \<le> length d \<and> length d \<le> 2 \<and> all_digits d
      \<longrightarrow> parse_date (PStr s) =
           (case date_new (read_nat y) (read_nat mo) (read_nat d) of
              Inl e \<Rightarrow> Inl e
            | Inr x \<Rightarrow> Inr (Some (isoformat x)))"
  proof
    assume a: "strip s = y @ ''-'' @ mo @ ''-'' @ d
        \<and> length y = 4 \<and> all_digits y
        \<and> 1 \<le> length mo \<and> length mo \<le> 2 \<and> all_digits mo
        \<and> 1 \<le> length d \<and> length d \<le> 2 \<and> all_digits d"
    then have ne: "strip s \<noteq> []" by simp
    have m: "match_ymd (strip s) = Some (y, mo, d)"
      by (rule match_ymd_shape) (use a strip_no_nl [of s] in simp_all)
    show "parse_date (PStr s) =
           (case date_new (read_nat y) (read_nat mo) (read_nat d) of
              Inl e \<Rightarrow> Inl e
            | Inr x \<Rightarrow> Inr (Some (isoformat x)))"
      using ne m by (simp add: parse_date_def)
  qed
  have c5: "strip s \<noteq> [] \<and> match_ymd (strip s) = None
      \<longrightarrow> parse_date (PStr s) = Inr (Some (strip s))"
    by (simp add: parse_date_def)
  have e1: "parse_date (PStr ''2024-3-5'') = Inr (Some ''2024-03-05'')" by code_simp
  have e2: "parse_date (PStr ''2024-13-5'') = Inl (InvalidDate 2024 13 5)" by code_simp
  have e3: "parse_date (PStr []) = Inr None" by code_simp
  have e4: "parse_date (PStr ''not a date'') = Inr (Some ''not a date'')" by code_simp
  from c1 parse_date_date parse_date_datetime c4 c5 e1 e2 e3 e4 show ?thesis by blast
qed

theorem parse_date_cases_witness:
  "parse_date PNone = Inr None
   \<and> parse_date (PStr '' 2023-2-29 '') = Inl (InvalidDate 2023 2 29)
   \<and> parse_date (PStr '' 5 May '') = Inr (Some ''5 May'')"
proof -
  note t = parse_date_cases [of PNone _ _ "'' 2023-2-29 ''" "''2023''" "''2''" "''29''"]
  note u = parse_date_cases [of PNone _ _ "'' 5 May ''" "[]" "[]" "[]"]
  have s1: "strip '' 2023-2-29 '' = ''2023'' @ ''-'' @ ''2'' @ ''-'' @ ''29''" by code_simp
  have d1: "all_digits ''2023'' \<and> all_digits ''2'' \<and> all_digits ''29''" by code_simp
  have r1: "date_new (read_nat ''2023'') (read_nat ''2'') (read_nat ''29'') = Inl (InvalidDate 2023 2 29)"
    by code_simp
  have s2: "strip '' 5 May '' = ''5 May''" by code_simp
  have m2: "match_ymd ''5 May'' = None" by code_simp
  have a: "parse_date PNone = Inr None" using t by simp
  have b: "parse_date (PStr '' 2023-2-29 '') = Inl (InvalidDate 2023 2 29)"
    using t s1 d1 r1 by simp
  have c: "parse_date (PStr '' 5 May '') = Inr (Some ''5 May'')"
    using u s2 m2 by simp
  from a b c show ?thesis by simp
qed


section \<open>YAML values\<close>

lemma replace_char_Cons:
  "replace_char c t (x # s) = (if x = c then t else [x]) @ replace_char c t s"
  by (simp add: replace_char_def)

lemma replace_char_append:
  "replace_char c t (a @ b) = replace_char c t a @ replace_char c t b"
  by (simp add: replace_char_def)

lemma dquote_backslash: "dquote \<noteq> backslash"
  by (simp add: dquote_def backslash_def)

lemma yaml_escape:
  "replace_char dquote [backslash, dquote] (replace_char backslash [backslash, backslash] s) =
   concat (map (\<lambda>c. if c = backslash then [backslash, backslash]
                      else if c = dquote then [backslash, dquote] else [c]) s)"
proof (induction s)
  case Nil
  then show ?case by (simp add: replace_char_def)
next
  case (Cons x s)
  have "replace_char dquote [backslash, dquote] (if x = backslash then [backslash, backslash] else [x])
      = (if x = backslash then [backslash, backslash]
         else if x = dquote then [backslash, dquote] else [x])"
    using dquote_backslash by (simp add: replace_char_def)
  then show ?case
    using Cons.IH by (simp add: replace_char_Cons replace_char_append del: append.simps)
qed

lemma yaml_quote_escape:
  "yaml_quote s =
   [dquote] @ concat (map (\<lambda>c. if c = backslash then [backslash, backslash]
                      else if c = dquote then [backslash, dquote] else [c]) s) @ [dquote]"
  by (simp add: yaml_quote_def Let_def yaml_escape)

lemma to_yaml_value_list:
  "xs \<noteq> [] \<Longrightarrow> to_yaml_value (ListOf xs) =
     ''['' @ join '', '' (map (\<lambda>x. yaml_quote (py_str x)) xs) @ '']''"
  by (cases xs) simp_all

text \<open>
  Claim C3, as stated: apart from booleans, the absent value, integer-valued floats and
  sequences, every value is rendered as a double-quoted string. The script renders an
  integer, and a float that is not integer-valued, by \<open>str\<close> without quotes: the
  integer 7 gives \<open>7\<close>, not \<open>"7"\<close>.
\<close>

theorem to_yaml_value_int_counterexample:
  "to_yaml_value (Val (PInt 7)) = ''7''
   \<and> yaml_quote (py_str (PInt 7)) = [dquote, CHR ''7'', dquote]
   \<and> to_yaml_value (Val (PInt 7)) \<noteq> yaml_quote (py_str (PInt 7))"
  by code_simp

text \<open>
  Claim C3, amended: \<open>to_yaml_value\<close> renders booleans as \<open>true\<close> and \<open>false\<close>, the
  absent value as \<open>null\<close>, an integer-valued float as its integer (361.0 as \<open>361\<close>),
  every other number by \<open>str\<close> without quotes, the empty list as \<open>[]\<close>, a non-empty
  list as its elements, each double-quoted and escaped, separated by a comma and a space
  between brackets, and every other value as the double-quoted \<open>str\<close> of it, in which
  each backslash is doubled and each double quote gets a backslash in front.
\<close>

theorem to_yaml_value_cases:
  "to_yaml_value (Val (PBool True)) = ''true''
   \<and> to_yaml_value (Val (PBool False)) = ''false''
   \<and> to_yaml_value (Val PNone) = ''null''
   \<and> (float_int f = Some n \<longrightarrow> to_yaml_value (Val (PFloat f)) = show_int n)
   \<and> to_yaml_value (Val (PFloat (float_of_int 361))) = ''361''
   \<and> to_yaml_value (Val (PInt i)) = show_int i
   \<and> (float_int f = None \<longrightarrow> to_yaml_value (Val (PFloat f)) = float_repr f)
   \<and> to_yaml_value (ListOf []) = ''[]''
   \<and> (xs \<noteq> [] \<longrightarrow> to_yaml_value (ListOf xs) =
         ''['' @ join '', '' (map (\<lambda>x. yaml_quote (py_str x)) xs) @ '']'')
   \<and> to_yaml_value (ListOf [PStr ''a'', PStr ''b'']) =
         [CHR ''['', dquote, CHR ''a'', dquote, CHR '','', CHR '' '',
          dquote, CHR ''b'', dquote, CHR '']'']
   \<and> to_yaml_value (Val (PStr s)) = yaml_quote s
   \<and> to_yaml_value (Val (PDate d)) = yaml_quote (isoformat d)
   \<and> to_yaml_value (Val (PDateTime d t)) = yaml_quote (isoformat d @ '' '' @ time_str t)
   \<and> yaml_quote s =
         [dquote] @ concat (map (\<lambda>c. if c = backslash then [backslash, backslash]
                                    else if c = dquote then [backslash, dquote] else [c]) s)
         @ [dquote]
   \<and> yaml_quote (''He said '' @ [dquote] @ ''hi'' @ [dquote]) =
         [dquote] @ ''He said '' @ [backslash, dquote] @ ''hi'' @ [backslash, dquote] @ [dquote]"
proof -
  have f1: "float_int f = Some n \<longrightarrow> to_yaml_value (Val (PFloat f)) = show_int n"
    by simp
  have f2: "float_int f = None \<longrightarrow> to_yaml_value (Val (PFloat f)) = float_repr f"
    by simp
  have f3: "to_yaml_value (Val (PFloat (float_of_int 361))) = ''361''"
    by code_simp
  have l1: "xs \<noteq> [] \<longrightarrow> to_yaml_value (ListOf xs) =
         ''['' @ join '', '' (map (\<lambda>x. yaml_quote (py_str x)) xs) @ '']''"
    using to_yaml_value_list [of xs] by blast
  have l2: "to_yaml_value (ListOf [PStr ''a'', PStr ''b'']) =
         [CHR ''['', dquote, CHR ''a'', dquote, CHR '','', CHR '' '',
          dquote, CHR ''b'', dquote, CHR '']'']"
    by code_simp
  have q: "yaml_quote (''He said '' @ [dquote] @ ''hi'' @ [dquote]) =
         [dquote] @ ''He said '' @ [backslash, dquote] @ ''hi'' @ [backslash, dquote] @ [dquote]"
    by code_simp
  have b: "to_yaml_value (Val (PBool True)) = ''true''
      \<and> to_yaml_value (Val (PBool False)) = ''false''
      \<and> to_yaml_value (Val PNone) = ''null''
      \<and> to_yaml_value (Val (PInt i)) = show_int i
      \<and> to_yaml_value (ListOf []) = ''[]''
      \<and> to_yaml_value (Val (PStr s)) = yaml_quote s
      \<and> to_yaml_value (Val (PDate d)) = yaml_quote (isoformat d)
      \<and> to_yaml_value (Val (PDateTime d t)) = yaml_quote (isoformat d @ '' '' @ time_str t)"
    by simp
  from b f1 f2 f3 l1 l2 q yaml_quote_escape [of s] show ?thesis by blast
qed

theorem to_yaml_value_cases_witness:
  "to_yaml_value (Val (PFloat \<lparr>float_repr = ''2.0'', float_int = Some 2\<rparr>)) = ''2''
   \<and> to_yaml_value (Val (PFloat \<lparr>float_repr = ''2.5'', float_int = None\<rparr>)) = ''2.5''
   \<and> to_yaml_value (ListOf [PInt 3]) = [CHR ''['', dquote, CHR ''3'', dquote, CHR '']'']"
proof -
  note t = to_yaml_value_cases [of "\<lparr>float_repr = ''2.0'', float_int = Some 2\<rparr>" 2 _ "[PInt 3]"]
  note u = to_yaml_value_cases [of "\<lparr>float_repr = ''2.5'', float_int = None\<rparr>" _ _ "[PInt 3]"]
  have s2: "show_int 2 = ''2''" by code_simp
  have j: "''['' @ join '', '' (map (\<lambda>x. yaml_quote (py_str x)) [PInt 3]) @ '']''
      = [CHR ''['', dquote, CHR ''3'', dquote, CHR '']'']" by code_simp
  have a: "to_yaml_value (Val (PFloat \<lparr>float_repr = ''2.0'', float_int = Some 2\<rparr>)) = ''2''"
    using t s2 by simp
  have b: "to_yaml_value (Val (PFloat \<lparr>float_repr = ''2.5'', float_int = None\<rparr>)) = ''2.5''"
    using u by simp
  have c: "to_yaml_value (ListOf [PInt 3]) = [CHR ''['', dquote, CHR ''3'', dquote, CHR '']'']"
    using t j by simp
  from a b c show ?thesis by simp
qed


section \<open>Cell lookup\<close>

lemma index_headers_notin:
  "name = [] \<or> name \<notin> set hs \<Longrightarrow> index_headers i hs m name = m name"
  by (induction hs arbitrary: i m) auto

lemma index_headers_in:
  "name \<noteq> [] \<Longrightarrow> name \<in> set hs \<Longrightarrow>
   \<exists>k<length hs. index_headers i hs m name = Some (i + k) \<and> hs ! k = name
      \<and> (\<forall>j<length hs. hs ! j = name \<longrightarrow> j \<le> k)"
proof (induction hs arbitrary: i m)
  case Nil
  then show ?case by simp
next
  case (Cons h hs)
  let ?m = "if h \<noteq> [] then m(h \<mapsto> i) else m"
  show ?case
  proof (cases "name \<in> set hs")
    case True
    from Cons.IH [OF Cons.prems(1) True, of "Suc i" ?m]
    obtain k where k: "k < length hs" "index_headers (Suc i) hs ?m name = Some (Suc i + k)"
      "hs ! k = name" "\<forall>j<length hs. hs ! j = name \<longrightarrow> j \<le> k"
      by blast
    have "\<forall>j<length (h # hs). (h # hs) ! j = name \<longrightarrow> j \<le> Suc k"
    proof (intro allI impI)
      fix j assume "j < length (h # hs)" "(h # hs) ! j = name"
      then show "j \<le> Suc k" using k(4) by (cases j) auto
    qed
    with k show ?thesis
      by (intro exI [of _ "Suc k"]) simp
  next
    case False
    with Cons.prems have h: "h = name" by simp
    have "index_headers (Suc i) hs ?m name = ?m name"
      using False by (simp add: index_headers_notin)
    then have a: "index_headers i (h # hs) m name = Some (i + 0)"
      using h Cons.prems(1) by simp
    have "\<forall>j<length (h # hs). (h # hs) ! j = name \<longrightarrow> j \<le> 0"
    proof (intro allI impI)
      fix j assume "j < length (h # hs)" "(h # hs) ! j = name"
      then show "j \<le> 0" using False by (cases j) auto
    qed
    with a h show ?thesis
      by (intro exI [of _ 0]) simp
  qed
qed

text \<open>
  Claim C10: the cell lookup is total. For a name that is empty or is not one of the
  header strings of row 1 it returns the absent value. For any other name it takes the
  index of that header (the last one, when the name occurs more than once) and returns
  the absent value when the row has no cell at that index, and the cell at that index
  otherwise. So what it returns is the absent value or a cell of the row: it never reads
  outside the row.
\<close>

theorem cell_lookup_total:
  "(name = [] \<or> name \<notin> set (headers_of row0)
      \<longrightarrow> cell (header_index row0) row name = PNone)
   \<and> (name \<noteq> [] \<and> name \<in> set (headers_of row0)
      \<longrightarrow> (\<exists>k<length row0. headers_of row0 ! k = name
             \<and> (\<forall>j<length row0. headers_of row0 ! j = name \<longrightarrow> j \<le> k)
             \<and> cell (header_index row0) row name = (if length row \<le> k then PNone else row ! k)))
   \<and> (cell (header_index row0) row name = PNone
        \<or> cell (header_index row0) row name \<in> set row)"
proof -
  have len: "length (headers_of row0) = length row0"
    by (simp add: headers_of_def)
  have c1: "name = [] \<or> name \<notin> set (headers_of row0)
      \<longrightarrow> cell (header_index row0) row name = PNone"
    by (auto simp: cell_def header_index_def index_headers_notin)
  have c2: "name \<noteq> [] \<and> name \<in> set (headers_of row0)
      \<longrightarrow> (\<exists>k<length row0. headers_of row0 ! k = name
             \<and> (\<forall>j<length row0. headers_of row0 ! j = name \<longrightarrow> j \<le> k)
             \<and> cell (header_index row0) row name = (if length row \<le> k then PNone else row ! k))"
  proof
    assume a: "name \<noteq> [] \<and> name \<in> set (headers_of row0)"
    from index_headers_in [of name "headers_of row0" 0 Map.empty] a
    obtain k where k: "k < length (headers_of row0)"
      "index_headers 0 (headers_of row0) Map.empty name = Some (0 + k)"
      "headers_of row0 ! k = name"
      "\<forall>j<length (headers_of row0). headers_of row0 ! j = name \<longrightarrow> j \<le> k"
      by blast
    have "cell (header_index row0) row name = (if length row \<le> k then PNone else row ! k)"
      using k(2) by (simp add: cell_def header_index_def)
    with k(1,3,4) show "\<exists>k<length row0. headers_of row0 ! k = name
             \<and> (\<forall>j<length row0. headers_of row0 ! j = name \<longrightarrow> j \<le> k)
             \<and> cell (header_index row0) row name = (if length row \<le> k then PNone else row ! k)"
      unfolding len by blast
  qed
  have c3: "cell (header_index row0) row name = PNone
        \<or> cell (header_index row0) row name \<in> set row"
    by (auto simp: cell_def split: option.splits)
  from c1 c2 c3 show ?thesis by blast
qed

theorem cell_lookup_total_witness:
  "cell (header_index [PStr ''id'', PNone, PStr '' title '', PStr ''id''])
        [PInt 1, PInt 2, PStr ''T''] ''notes'' = PNone
   \<and> (\<exists>k<4. headers_of [PStr ''id'', PNone, PStr '' title '', PStr ''id''] ! k = ''title''
         \<and> cell (header_index [PStr ''id'', PNone, PStr '' title '', PStr ''id''])
              [PInt 1, PInt 2, PStr ''T''] ''title''
            = (if 3 \<le> k then PNone else [PInt 1, PInt 2, PStr ''T''] ! k))"
proof -
  let ?hdr = "[PStr ''id'', PNone, PStr '' title '', PStr ''id'']"
  let ?cells = "[PInt 1, PInt 2, PStr ''T'']"
  have h1: "''notes'' \<notin> set (headers_of ?hdr)" by code_simp
  have h2a: "''title'' \<in> set (headers_of ?hdr)" by code_simp
  have h2: "''title'' \<noteq> [] \<and> ''title'' \<in> set (headers_of ?hdr)"
    using h2a by simp
  have a: "cell (header_index ?hdr) ?cells ''notes'' = PNone"
    using cell_lookup_total [of "''notes''" ?hdr ?cells] h1 by blast
  have b: "\<exists>k<4. headers_of ?hdr ! k = ''title''
         \<and> cell (header_index ?hdr) ?cells ''title'' = (if 3 \<le> k then PNone else ?cells ! k)"
  proof -
    from cell_lookup_total [of "''title''" ?hdr ?cells] h2
    obtain k where k: "k < length ?hdr" "headers_of ?hdr ! k = ''title''"
      "cell (header_index ?hdr) ?cells ''title''
         = (if length ?cells \<le> k then PNone else ?cells ! k)"
      by blast
    have "k < 4 \<and> headers_of ?hdr ! k = ''title''
         \<and> cell (header_index ?hdr) ?cells ''title'' = (if 3 \<le> k then PNone else ?cells ! k)"
      using k by simp
    then show ?thesis by blast
  qed
  from a b show ?thesis by blast
qed


section \<open>The loop over the rows\<close>

lemma process_row_missing:
  "row_missing a hi r \<Longrightarrow> process_row a e hi r st = Inr (st\<lparr>skipped := skipped st + 1\<rparr>)"
  by (simp add: process_row_def)

lemma run_rows_append:
  "run_rows a e hi (pre @ post) st =
     (case run_rows a e hi pre st of
        (Some err, st') \<Rightarrow> (Some err, st')
      | (None, st') \<Rightarrow> run_rows a e hi post st')"
  by (induction pre arbitrary: st) (simp_all split: sum.splits)

lemma row_front_matter_slug_error:
  "slug_id (cell hi r (id_col a)) 5 = Inl err \<Longrightarrow> row_front_matter a e hi r = Inl err"
  by (simp add: row_front_matter_def)

lemma row_document_slug_error:
  "slug_id (cell hi r (id_col a)) 5 = Inl err \<Longrightarrow> row_document a e hi r = Inl err"
  by (simp add: row_document_def row_front_matter_slug_error)

lemma process_row_slug_error:
  "\<not> row_missing a hi r \<Longrightarrow> slug_id (cell hi r (id_col a)) 5 = Inl err \<Longrightarrow>
   process_row a e hi r st = Inl err"
  by (simp add: process_row_def row_document_slug_error)

lemma slug_id_no_digits:
  "raw \<noteq> PNone \<Longrightarrow> digits_only (sub_dot0 (strip (py_str raw))) = [] \<Longrightarrow>
   slug_id raw w = Inl InvalidId"
  by (simp add: slug_id_def Let_def)

lemma path_chain_works: "path_chain ''works'' = [''works'']"
  by code_simp

lemma mkdir_works:
  "files st = Map.empty \<Longrightarrow>
   mkdir_parents (output_dir default_args) st = Inr (st\<lparr>dirs := dirs st \<union> {''works''}\<rparr>)"
  by (simp add: mkdir_parents_def default_args_def path_chain_works)

text \<open>
  Claim C7: a row whose id cell is absent, or whose title cell is absent or blank once
  trimmed, is skipped and counted, raises nothing, and the loop goes on with the next
  row. A row that has an id and a title, but whose id keeps no digit, makes \<open>slug_id\<close>
  raise the identifier error: the row fails, the loop stops there whatever rows follow,
  and \<open>main\<close> ends with that error in the state reached before the row.
\<close>

theorem missing_skipped_bad_id_aborts:
  "(cell hi r (id_col a) = PNone \<or> cell hi r (title_col a) = PNone
      \<or> strip (py_str (cell hi r (title_col a))) = []
    \<longrightarrow> process_row a e hi r st = Inr (st\<lparr>skipped := skipped st + 1\<rparr>)
        \<and> run_rows a e hi (r # rs) st = run_rows a e hi rs (st\<lparr>skipped := skipped st + 1\<rparr>))
   \<and> (cell hi r (id_col a) \<noteq> PNone
      \<and> cell hi r (title_col a) \<noteq> PNone
      \<and> strip (py_str (cell hi r (title_col a))) \<noteq> []
      \<and> digits_only (sub_dot0 (strip (py_str (cell hi r (id_col a))))) = []
    \<longrightarrow> process_row a e hi r st = Inl InvalidId
        \<and> (run_rows a e hi pre st0 = (None, st)
             \<longrightarrow> run_rows a e hi (pre @ r # rs) st0 = (Some InvalidId, st))
        \<and> (mkdir_parents (output_dir a) st1 = Inr st2
             \<and> run_rows a e (header_index row0) pre (st2\<lparr>written := 0, skipped := 0\<rparr>) = (None, st)
             \<and> hi = header_index row0
             \<longrightarrow> main a e (row0 # pre @ r # rs) st1 = (Some InvalidId, st)))"
proof -
  have skip: "cell hi r (id_col a) = PNone \<or> cell hi r (title_col a) = PNone
      \<or> strip (py_str (cell hi r (title_col a))) = []
    \<longrightarrow> process_row a e hi r st = Inr (st\<lparr>skipped := skipped st + 1\<rparr>)
        \<and> run_rows a e hi (r # rs) st = run_rows a e hi rs (st\<lparr>skipped := skipped st + 1\<rparr>)"
  proof
    assume "cell hi r (id_col a) = PNone \<or> cell hi r (title_col a) = PNone
      \<or> strip (py_str (cell hi r (title_col a))) = []"
    then have "row_missing a hi r" by (simp add: row_missing_def Let_def)
    then have "process_row a e hi r st = Inr (st\<lparr>skipped := skipped st + 1\<rparr>)"
      by (rule process_row_missing)
    then show "process_row a e hi r st = Inr (st\<lparr>skipped := skipped st + 1\<rparr>)
        \<and> run_rows a e hi (r # rs) st = run_rows a e hi rs (st\<lparr>skipped := skipped st + 1\<rparr>)"
      by simp
  qed
  have abort: "cell hi r (id_col a) \<noteq> PNone
      \<and> cell hi r (title_col a) \<noteq> PNone
      \<and> strip (py_str (cell hi r (title_col a))) \<noteq> []
      \<and> digits_only (sub_dot0 (strip (py_str (cell hi r (id_col a))))) = []
    \<longrightarrow> process_row a e hi r st = Inl InvalidId
        \<and> (run_rows a e hi pre st0 = (None, st)
             \<longrightarrow> run_rows a e hi (pre @ r # rs) st0 = (Some InvalidId, st))
        \<and> (mkdir_parents (output_dir a) st1 = Inr st2
             \<and> run_rows a e (header_index row0) pre (st2\<lparr>written := 0, skipped := 0\<rparr>) = (None, st)
             \<and> hi = header_index row0
             \<longrightarrow> main a e (row0 # pre @ r # rs) st1 = (Some InvalidId, st))"
  proof
    assume h: "cell hi r (id_col a) \<noteq> PNone
      \<and> cell hi r (title_col a) \<noteq> PNone
      \<and> strip (py_str (cell hi r (title_col a))) \<noteq> []
      \<and> digits_only (sub_dot0 (strip (py_str (cell hi r (id_col a))))) = []"
    then have nm: "\<not> row_missing a hi r" by (simp add: row_missing_def Let_def)
    from h have "slug_id (cell hi r (id_col a)) 5 = Inl InvalidId"
      by (simp add: slug_id_no_digits)
    with nm have p: "\<And>s. process_row a e hi r s = Inl InvalidId"
      by (simp add: process_row_slug_error)
    have loop: "\<And>s0. run_rows a e hi pre s0 = (None, st)
             \<Longrightarrow> run_rows a e hi (pre @ r # rs) s0 = (Some InvalidId, st)"
      by (simp add: run_rows_append p)
    have m: "mkdir_parents (output_dir a) st1 = Inr st2
             \<and> run_rows a e (header_index row0) pre (st2\<lparr>written := 0, skipped := 0\<rparr>) = (None, st)
             \<and> hi = header_index row0
             \<longrightarrow> main a e (row0 # pre @ r # rs) st1 = (Some InvalidId, st)"
    proof
      assume g: "mkdir_parents (output_dir a) st1 = Inr st2
             \<and> run_rows a e (header_index row0) pre (st2\<lparr>written := 0, skipped := 0\<rparr>) = (None, st)
             \<and> hi = header_index row0"
      then have "run_rows a e (header_index row0) (pre @ r # rs) (st2\<lparr>written := 0, skipped := 0\<rparr>)
          = (Some InvalidId, st)"
        using loop [of "st2\<lparr>written := 0, skipped := 0\<rparr>"] by simp
      with g show "main a e (row0 # pre @ r # rs) st1 = (Some InvalidId, st)"
        by (simp add: main_def)
    qed
    from p [of st] loop [of st0] m
    show "process_row a e hi r st = Inl InvalidId
        \<and> (run_rows a e hi pre st0 = (None, st)
             \<longrightarrow> run_rows a e hi (pre @ r # rs) st0 = (Some InvalidId, st))
        \<and> (mkdir_parents (output_dir a) st1 = Inr st2
             \<and> run_rows a e (header_index row0) pre (st2\<lparr>written := 0, skipped := 0\<rparr>) = (None, st)
             \<and> hi = header_index row0
             \<longrightarrow> main a e (row0 # pre @ r # rs) st1 = (Some InvalidId, st))"
      by blast
  qed
  from skip abort show ?thesis by blast
qed

theorem missing_skipped_bad_id_aborts_witness:
  "main default_args some_env
     [[PStr ''id'', PStr ''title''],
      [PNone, PStr ''No id''],
      [PStr ''abc'', PStr ''T''],
      [PInt 2, PStr ''Later'']] empty_state
   = (Some InvalidId, empty_state\<lparr>dirs := {''works''}, skipped := 1\<rparr>)"
proof -
  let ?hdr = "[PStr ''id'', PStr ''title'']"
  let ?hi = "header_index ?hdr"
  let ?r1 = "[PNone, PStr ''No id'']"
  let ?r2 = "[PStr ''abc'', PStr ''T'']"
  let ?rs = "[[PInt 2, PStr ''Later'']]"
  let ?s2 = "empty_state\<lparr>dirs := dirs empty_state \<union> {''works''}\<rparr>"
  let ?s3 = "?s2\<lparr>written := 0, skipped := 0\<rparr>"
  let ?s4 = "?s3\<lparr>skipped := skipped ?s3 + 1\<rparr>"
  have c1: "cell ?hi ?r1 (id_col default_args) = PNone" by code_simp
  have skip: "run_rows default_args some_env ?hi [?r1] ?s3 = (None, ?s4)"
    using missing_skipped_bad_id_aborts [of ?hi ?r1 default_args some_env ?s3 "[]"] c1
    by simp
  have h1: "cell ?hi ?r2 (id_col default_args) \<noteq> PNone" by code_simp
  have h2: "cell ?hi ?r2 (title_col default_args) \<noteq> PNone" by code_simp
  have h3: "strip (py_str (cell ?hi ?r2 (title_col default_args))) \<noteq> []" by code_simp
  have h4: "digits_only (sub_dot0 (strip (py_str (cell ?hi ?r2 (id_col default_args))))) = []"
    by code_simp
  have mk: "mkdir_parents (output_dir default_args) empty_state = Inr ?s2"
    by (rule mkdir_works) (simp add: empty_state_def)
  have "main default_args some_env (?hdr # [?r1] @ ?r2 # ?rs) empty_state = (Some InvalidId, ?s4)"
    using missing_skipped_bad_id_aborts
      [of ?hi ?r2 default_args some_env ?s4 ?rs "[?r1]" ?s3 empty_state ?s2 ?hdr]
      h1 h2 h3 h4 mk skip
    by blast
  then show ?thesis by (simp add: empty_state_def)
qed


section \<open>Effects of a run on the file system\<close>

text \<open>What one turn of the loop can do to the state.\<close>

lemma process_row_cases:
  assumes "process_row a e hi r st = Inr st'"
  shows "st' = st\<lparr>skipped := skipped st + 1\<rparr>
    \<or> (\<exists>msg. st' = st\<lparr>out := out st @ [msg], skipped := skipped st + 1\<rparr>)
    \<or> (\<exists>msg. \<not> write_mode a \<and> st' = st\<lparr>out := out st @ [msg], written := written st + 1\<rparr>)
    \<or> (\<exists>msg wid content. write_mode a
          \<and> row_document a e hi r = Inr (wid, content)
          \<and> path_join (output_dir a) (wid @ ''.md'') \<notin> dirs st
          \<and> (force a \<or> \<not> path_exists st (path_join (output_dir a) (wid @ ''.md'')))
          \<and> st' = st\<lparr>files := (files st)(path_join (output_dir a) (wid @ ''.md'') \<mapsto> content),
                       out := out st @ [msg], written := written st + 1\<rparr>)"
proof (cases "row_missing a hi r")
  case True
  with assms show ?thesis by (simp add: process_row_def)
next
  case False
  with assms obtain wid content where doc: "row_document a e hi r = Inr (wid, content)"
    by (cases "row_document a e hi r") (auto simp: process_row_def)
  let ?p = "path_join (output_dir a) (wid @ ''.md'')"
  show ?thesis
  proof (cases "path_exists st ?p \<and> \<not> force a")
    case True
    with assms False doc
    have "st' = st\<lparr>out := out st @ [''SKIP (exists): '' @ ?p], skipped := skipped st + 1\<rparr>"
      by (simp add: process_row_def Let_def)
    then show ?thesis by blast
  next
    case nskip: False
    show ?thesis
    proof (cases "write_mode a")
      case True
      with assms False doc nskip have nd: "?p \<notin> dirs st"
        by (auto simp: process_row_def Let_def write_text_def split: if_splits)
      with assms False doc nskip True
      have "st' = st\<lparr>files := (files st)(?p \<mapsto> content),
                       out := out st @ [''WRITE: '' @ ?p], written := written st + 1\<rparr>"
        by (auto simp: process_row_def Let_def write_text_def split: if_splits)
      with True doc nd nskip show ?thesis by blast
    next
      case dry: False
      with assms False doc nskip
      have "st' = st\<lparr>out := out st @ [''DRY-RUN: would write '' @ ?p @ '' (overwrite=''
                       @ py_str (PBool (path_exists st ?p)) @ '')''],
                     written := written st + 1\<rparr>"
        by (auto simp: process_row_def Let_def)
      with dry show ?thesis by blast
    qed
  qed
qed

lemma process_row_dirs: "process_row a e hi r st = Inr st' \<Longrightarrow> dirs st' = dirs st"
  using process_row_cases [of a e hi r st st'] by auto

lemma process_row_counts:
  "process_row a e hi r st = Inr st' \<Longrightarrow>
   written st' + skipped st' = Suc (written st + skipped st)"
  using process_row_cases [of a e hi r st st'] by auto

lemma process_row_out:
  "process_row a e hi r st = Inr st' \<Longrightarrow> \<exists>msgs. out st' = out st @ msgs"
  using process_row_cases [of a e hi r st st'] by auto

lemma process_row_files_dry:
  "\<not> write_mode a \<Longrightarrow> process_row a e hi r st = Inr st' \<Longrightarrow> files st' = files st"
  using process_row_cases [of a e hi r st st'] by auto




lemma run_rows_step:
  "run_rows a e hi (r # rs) st = (x, st') \<Longrightarrow>
   (process_row a e hi r st = Inl (the x) \<and> x \<noteq> None \<and> st' = st)
   \<or> (\<exists>st1. process_row a e hi r st = Inr st1 \<and> run_rows a e hi rs st1 = (x, st'))"
  by (cases "process_row a e hi r st") auto

lemma run_rows_dirs: "run_rows a e hi rs st = (x, st') \<Longrightarrow> dirs st' = dirs st"
proof (induction rs arbitrary: st)
  case Nil
  then show ?case by simp
next
  case (Cons r rs)
  from run_rows_step [OF Cons.prems] show ?case
    using Cons.IH process_row_dirs by fastforce
qed

lemma run_rows_out:
  "run_rows a e hi rs st = (x, st') \<Longrightarrow> \<exists>msgs. out st' = out st @ msgs"
proof (induction rs arbitrary: st)
  case Nil
  then show ?case by simp
next
  case (Cons r rs)
  from run_rows_step [OF Cons.prems] show ?case
  proof
    assume "process_row a e hi r st = Inl (the x) \<and> x \<noteq> None \<and> st' = st"
    then show ?thesis by simp
  next
    assume "\<exists>st1. process_row a e hi r st = Inr st1 \<and> run_rows a e hi rs st1 = (x, st')"
    then obtain st1 where s: "process_row a e hi r st = Inr st1"
      "run_rows a e hi rs st1 = (x, st')" by blast
    from process_row_out [OF s(1)] obtain m1 where "out st1 = out st @ m1" by blast
    moreover from Cons.IH [OF s(2)] obtain m2 where "out st' = out st1 @ m2" by blast
    ultimately have "out st' = out st @ (m1 @ m2)" by simp
    then show ?thesis by blast
  qed
qed

lemma run_rows_counts:
  "run_rows a e hi rs st = (None, st') \<Longrightarrow>
   written st' + skipped st' = written st + skipped st + length rs"
proof (induction rs arbitrary: st)
  case Nil
  then show ?case by simp
next
  case (Cons r rs)
  from run_rows_step [OF Cons.prems] obtain st1 where s: "process_row a e hi r st = Inr st1"
      "run_rows a e hi rs st1 = (None, st')" by auto
  from process_row_counts [OF s(1)] Cons.IH [OF s(2)] show ?case by simp
qed

lemma run_rows_files_dry:
  "\<not> write_mode a \<Longrightarrow> run_rows a e hi rs st = (x, st') \<Longrightarrow> files st' = files st"
proof (induction rs arbitrary: st)
  case Nil
  then show ?case by simp
next
  case (Cons r rs)
  from run_rows_step [OF Cons.prems(2)] show ?case
    using Cons.IH [OF Cons.prems(1)] process_row_files_dry [OF Cons.prems(1)] by fastforce
qed



lemma mkdir_parents_Inr:
  "mkdir_parents p st = Inr st1 \<Longrightarrow>
   st1 = st\<lparr>dirs := dirs st \<union> set (path_chain p)\<rparr>
   \<and> (\<forall>q\<in>set (path_chain p). files st q = None)"
  by (auto simp: mkdir_parents_def list_ex_iff split: if_splits)

lemma main_cases:
  assumes m: "main a e rows st = (x, st')"
  shows "(rows = [] \<and> x = Some SheetEmpty \<and> st' = st)
   \<or> (\<exists>err. mkdir_parents (output_dir a) st = Inl err \<and> x = Some err \<and> st' = st)
   \<or> (\<exists>row0 data st1 st2. rows = row0 # data
        \<and> mkdir_parents (output_dir a) st = Inr st1
        \<and> run_rows a e (header_index row0) data (st1\<lparr>written := 0, skipped := 0\<rparr>) = (x, st2)
        \<and> ((x \<noteq> None \<and> st' = st2)
            \<or> (x = None \<and> (\<exists>msg. st' = st2\<lparr>out := out st2 @ [msg]\<rparr>))))"
proof (cases rows)
  case Nil
  with m show ?thesis by (simp add: main_def)
next
  case (Cons row0 data)
  show ?thesis
  proof (cases "mkdir_parents (output_dir a) st")
    case (Inl err)
    with m Cons show ?thesis by (simp add: main_def)
  next
    case (Inr st1)
    obtain y st2 where r: "run_rows a e (header_index row0) data (st1\<lparr>written := 0, skipped := 0\<rparr>) = (y, st2)"
      by (cases "run_rows a e (header_index row0) data (st1\<lparr>written := 0, skipped := 0\<rparr>)") auto
    show ?thesis
    proof (cases y)
      case None
      with m Cons Inr r have "x = None \<and> (\<exists>msg. st' = st2\<lparr>out := out st2 @ [msg]\<rparr>)"
        by (auto simp: main_def)
      with Cons Inr r None show ?thesis by blast
    next
      case (Some err)
      with m Cons Inr r have "x = Some err \<and> st' = st2"
        by (auto simp: main_def)
      with Cons Inr r Some show ?thesis by blast
    qed
  qed
qed

lemma process_row_dry_run:
  assumes "\<not> row_missing a hi r" and "map_sum id fst (row_document a e hi r) = Inr wid"
    and "\<not> write_mode a" and "\<not> path_exists st (path_join (output_dir a) (wid @ ''.md''))"
  shows "process_row a e hi r st =
     Inr (st\<lparr>out := out st @ [''DRY-RUN: would write '' @ path_join (output_dir a) (wid @ ''.md'')
                    @ '' (overwrite=False)''],
            written := written st + 1\<rparr>)"
proof -
  from assms(2) obtain content where "row_document a e hi r = Inr (wid, content)"
    by (cases "row_document a e hi r") auto
  with assms(1,3,4) show ?thesis
    by (simp add: process_row_def Let_def)
qed

lemma main_completes:
  assumes "mkdir_parents (output_dir a) st = Inr st1"
    and "run_rows a e (header_index row0) data (st1\<lparr>written := 0, skipped := 0\<rparr>) = (None, st2)"
  shows "main a e (row0 # data) st =
     (None, st2\<lparr>out := out st2 @
        [[nl] @ ''Done. '' @ (if \<not> write_mode a then ''Would write'' else ''Wrote'')
         @ '': '' @ show_nat (written st2) @ ''. Skipped: '' @ show_nat (skipped st2) @ ''.'']\<rparr>)"
  using assms by (simp add: main_def)

text \<open>
  Claim C5, as stated: a dry run creates, modifies and deletes nothing and only reports.
  \<open>main\<close> creates the output directory before the loop, whatever the mode: a dry run
  with the default arguments, started where no directory exists, ends with the directory
  \<open>works\<close> created.
\<close>

theorem dry_run_mkdir_counterexample:
  "\<not> write_mode default_args
   \<and> dirs empty_state = {}
   \<and> main default_args some_env [[PStr ''id'', PStr ''title''], [PInt 1, PStr ''T'']] empty_state
     = (None, empty_state\<lparr>dirs := {''works''},
          out := [''DRY-RUN: would write works/00001.md (overwrite=False)'',
                  [nl] @ ''Done. Would write: 1. Skipped: 0.''],
          written := 1\<rparr>)"
proof -
  let ?hdr = "[PStr ''id'', PStr ''title'']"
  let ?r = "[PInt 1, PStr ''T'']"
  let ?s1 = "empty_state\<lparr>dirs := dirs empty_state \<union> {''works''}\<rparr>"
  let ?s2 = "?s1\<lparr>written := 0, skipped := 0\<rparr>"
  have w: "\<not> write_mode default_args" by (simp add: default_args_def)
  have nm: "\<not> row_missing default_args (header_index ?hdr) ?r" by code_simp
  have doc: "map_sum id fst (row_document default_args some_env (header_index ?hdr) ?r) = Inr ''00001''"
    by code_simp
  have p: "path_join (output_dir default_args) (''00001'' @ ''.md'') = ''works/00001.md''"
    by (simp add: path_join_def default_args_def)
  have ne: "\<not> path_exists ?s2 (path_join (output_dir default_args) (''00001'' @ ''.md''))"
    unfolding p by (simp add: path_exists_def empty_state_def)
  have mk: "mkdir_parents (output_dir default_args) empty_state = Inr ?s1"
    by (rule mkdir_works) (simp add: empty_state_def)
  have n1: "show_nat (Suc 0) = ''1''" "show_nat 0 = ''0''" by code_simp+
  have row: "process_row default_args some_env (header_index ?hdr) ?r ?s2 =
     Inr (?s2\<lparr>out := out ?s2 @ [''DRY-RUN: would write '' @ ''works/00001.md'' @ '' (overwrite=False)''],
            written := written ?s2 + 1\<rparr>)"
    using process_row_dry_run [OF nm doc w ne] unfolding p .
  have loop: "run_rows default_args some_env (header_index ?hdr) [?r] ?s2 =
     (None, ?s2\<lparr>out := out ?s2 @ [''DRY-RUN: would write '' @ ''works/00001.md'' @ '' (overwrite=False)''],
            written := written ?s2 + 1\<rparr>)"
    unfolding run_rows.simps row by simp
  have "main default_args some_env [?hdr, ?r] empty_state
     = (None, empty_state\<lparr>dirs := {''works''},
          out := [''DRY-RUN: would write works/00001.md (overwrite=False)'',
                  [nl] @ ''Done. Would write: 1. Skipped: 0.''],
          written := 1\<rparr>)"
    unfolding main_completes [OF mk loop] using w by (simp add: empty_state_def n1)
  with w show ?thesis by (simp add: empty_state_def)
qed

text \<open>
  Claim C5, amended: a run without write mode, whether it completes or stops at an
  exception, leaves every regular file as it was: none is created, changed or deleted.
  The directories it leaves are those it found and, at most, the output directory with
  its parents, which it creates when missing. Apart from that it only adds lines to the
  output, and when it completes, the two counters it reports add up to the number of
  data rows.
\<close>

theorem dry_run_frame:
  assumes "\<not> write_mode a" and "main a e rows st = (x, st')"
  shows "files st' = files st
     \<and> dirs st \<subseteq> dirs st' \<and> dirs st' \<subseteq> dirs st \<union> set (path_chain (output_dir a))
     \<and> (\<exists>msgs. out st' = out st @ msgs)
     \<and> (x = None \<longrightarrow> Suc (written st' + skipped st') = length rows)"
proof -
  from main_cases [OF assms(2)] consider
    (empty) "rows = [] \<and> x = Some SheetEmpty \<and> st' = st"
  | (nodir) err where "mkdir_parents (output_dir a) st = Inl err \<and> x = Some err \<and> st' = st"
  | (loop) row0 data st1 st2 where "rows = row0 # data"
        "mkdir_parents (output_dir a) st = Inr st1"
        "run_rows a e (header_index row0) data (st1\<lparr>written := 0, skipped := 0\<rparr>) = (x, st2)"
        "(x \<noteq> None \<and> st' = st2) \<or> (x = None \<and> (\<exists>msg. st' = st2\<lparr>out := out st2 @ [msg]\<rparr>))"
    by blast
  then show ?thesis
  proof cases
    case empty
    then show ?thesis by simp
  next
    case nodir
    then show ?thesis by simp
  next
    case loop
    let ?s = "st1\<lparr>written := 0, skipped := 0\<rparr>"
    from mkdir_parents_Inr [OF loop(2)]
    have st1: "st1 = st\<lparr>dirs := dirs st \<union> set (path_chain (output_dir a))\<rparr>" by simp
    from run_rows_files_dry [OF assms(1) loop(3)] have f: "files st2 = files st"
      by (simp add: st1)
    from run_rows_dirs [OF loop(3)]
    have d: "dirs st2 = dirs st \<union> set (path_chain (output_dir a))"
      by (simp add: st1)
    from run_rows_out [OF loop(3)] obtain msgs where o: "out st2 = out st @ msgs"
      by (auto simp: st1)
    have c: "x = None \<longrightarrow> written st2 + skipped st2 = length data"
      using run_rows_counts [of a e "header_index row0" data ?s st2] loop(3) by auto
    from loop(4) show ?thesis
    proof
      assume "x \<noteq> None \<and> st' = st2"
      with f d o show ?thesis by auto
    next
      assume "x = None \<and> (\<exists>msg. st' = st2\<lparr>out := out st2 @ [msg]\<rparr>)"
      then obtain msg where s: "x = None" "st' = st2\<lparr>out := out st2 @ [msg]\<rparr>" by blast
      have "out st' = out st @ (msgs @ [msg])" using s o by simp
      then have "\<exists>m. out st' = out st @ m" by blast
      with f d c s loop(1) show ?thesis by auto
    qed
  qed
qed

theorem dry_run_frame_witness:
  "files (snd (main default_args some_env
       [[PStr ''id'', PStr ''title''], [PInt 1, PStr ''T'']] empty_state)) = files empty_state
   \<and> (\<exists>msgs. out (snd (main default_args some_env
       [[PStr ''id'', PStr ''title''], [PInt 1, PStr ''T'']] empty_state)) = out empty_state @ msgs)"
proof -
  have w: "\<not> write_mode default_args" by (simp add: default_args_def)
  from dry_run_frame [OF w surjective_pairing] show ?thesis by blast
qed


section \<open>Existing files and a second run\<close>

















section \<open>The text of a file\<close>

lemma join_snoc: "xs \<noteq> [] \<Longrightarrow> join sep (xs @ [x]) = join sep xs @ sep @ x"
proof (induction sep xs rule: join.induct)
  case (1 sep)
  then show ?case by simp
next
  case (2 sep y)
  then show ?case by simp
next
  case (3 sep y z zs)
  then show ?case by simp
qed

lemma build_front_matter_end:
  "\<exists>pre. build_front_matter fm = pre @ ''---'' @ [nl]"
proof -
  have "join [nl] ((''---'' # front_matter_entries fm) @ [''---''])
      = join [nl] (''---'' # front_matter_entries fm) @ [nl] @ ''---''"
    by (rule join_snoc) simp
  then have "build_front_matter fm
      = (join [nl] (''---'' # front_matter_entries fm) @ [nl]) @ ''---'' @ [nl]"
    by (simp add: build_front_matter_def)
  then show ?thesis by blast
qed

lemma join_hd: "l \<noteq> [] \<Longrightarrow> hd l \<in> set (join sep (l # ls))"
  by (cases ls) auto

lemma rstrip_join_nonempty:
  assumes "l \<noteq> []" and "\<not> is_space (hd l)"
  shows "rstrip (join sep (l # ls)) \<noteq> []"
  using rstrip_nonempty [OF join_hd [OF assms(1), of sep ls] assms(2)] by auto

lemma body_lines_hd:
  assumes "body_lines a hi r wid = l # ls"
  shows "l \<noteq> [] \<and> \<not> is_space (hd l)"
proof -
  let ?notes = "cell hi r (notes_col a)"
  show ?thesis
  proof (cases "truthy ?notes \<and> strip (py_str ?notes) \<noteq> []")
    case True
    with assms have "l = strip (py_str ?notes)"
      by (simp add: body_lines_def Let_def)
    with True strip_hd [of "py_str ?notes"] show ?thesis by auto
  next
    case False
    with assms have "l = ''## Supplements''"
      by (auto simp: body_lines_def Let_def split: if_splits)
    then show ?thesis by (simp add: is_space_def)
  qed
qed

lemma trailing_newlines_two: "trailing_newlines (pre @ ''---'' @ [nl] @ [nl]) = 2"
  by (simp add: trailing_newlines_def nl_def)

lemma trailing_newlines_one:
  "body \<noteq> [] \<Longrightarrow> \<not> is_space (last body) \<Longrightarrow> trailing_newlines (pre @ body @ [nl]) = 1"
  using is_space_nl by (cases body rule: rev_cases) (auto simp: trailing_newlines_def)

text \<open>
  Claim C8, as stated: the text of every file ends with exactly one newline, also when
  the body is empty. The front matter already ends with a newline and the script adds
  one after the trimmed body, so for a row without notes and attachments the text ends
  with the closing \<open>---\<close> line and an empty line: two newlines.
\<close>

theorem empty_body_two_newlines_counterexample:
  "row_document default_args some_env (header_index [PStr ''id'', PStr ''title''])
       [PInt 1, PStr ''T'']
     = Inr (''00001'',
         ''---'' @ [nl]
         @ ''title: '' @ [dquote] @ ''T'' @ [dquote] @ [nl]
         @ ''date: '' @ [dquote] @ ''2024-06-01'' @ [dquote] @ [nl]
         @ ''layout: '' @ [dquote] @ ''theme'' @ [dquote] @ [nl]
         @ ''work_id: '' @ [dquote] @ ''00001'' @ [dquote] @ [nl]
         @ ''---'' @ [nl] @ [nl])
   \<and> map_sum id (\<lambda>(wid, content). trailing_newlines content)
        (row_document default_args some_env (header_index [PStr ''id'', PStr ''title''])
           [PInt 1, PStr ''T'']) = Inr 2"
  by code_simp

text \<open>
  Claim C8, amended: the text of a file is the front matter, then the body with its
  trailing whitespace trimmed, then one newline. The body is empty exactly when the row
  has neither notes nor attachments. When the body is not empty the text ends with
  exactly one newline; when it is empty the text ends with two.
\<close>

theorem document_ends:
  assumes "row_document a e hi r = Inr (wid, content)"
  shows "\<exists>fm. content = build_front_matter fm @ rstrip (join [nl] (body_lines a hi r wid)) @ [nl]
     \<and> (rstrip (join [nl] (body_lines a hi r wid)) = []
          \<or> \<not> is_space (last (rstrip (join [nl] (body_lines a hi r wid)))))
     \<and> (rstrip (join [nl] (body_lines a hi r wid)) = [] \<longleftrightarrow> body_lines a hi r wid = [])
     \<and> trailing_newlines content = (if body_lines a hi r wid = [] then 2 else 1)"
proof -
  let ?body = "rstrip (join [nl] (body_lines a hi r wid))"
  from assms obtain fm where fm: "row_front_matter a e hi r = Inr (wid, fm)"
    and c: "content = build_front_matter fm @ ?body @ [nl]"
    by (cases "row_front_matter a e hi r") (auto simp: row_document_def)
  have last: "?body = [] \<or> \<not> is_space (last ?body)"
    by (rule rstrip_last)
  have empty: "?body = [] \<longleftrightarrow> body_lines a hi r wid = []"
  proof (cases "body_lines a hi r wid")
    case Nil
    then show ?thesis by (simp add: rstrip_def)
  next
    case (Cons l ls)
    from body_lines_hd [OF Cons] have "rstrip (join [nl] (l # ls)) \<noteq> []"
      by (intro rstrip_join_nonempty) simp_all
    with Cons show ?thesis by simp
  qed
  have count: "trailing_newlines content = (if body_lines a hi r wid = [] then 2 else 1)"
  proof (cases "body_lines a hi r wid = []")
    case True
    obtain pre where "build_front_matter fm = pre @ ''---'' @ [nl]"
      using build_front_matter_end by blast
    with c True have "content = pre @ ''---'' @ [nl] @ [nl]"
      by (simp add: rstrip_def)
    then have "trailing_newlines content = 2"
      by (simp only: trailing_newlines_two)
    with True show ?thesis by simp
  next
    case False
    with empty last have "?body \<noteq> []" "\<not> is_space (last ?body)" by auto
    from trailing_newlines_one [OF this, of "build_front_matter fm"] c False
    show ?thesis by simp
  qed
  from c last empty count show ?thesis by blast
qed

theorem document_ends_witness:
  "\<exists>content.
     row_document default_args some_env (header_index [PStr ''id'', PStr ''title'', PStr ''notes''])
       [PInt 1, PStr ''T'', PStr ''Some notes ''] = Inr (''00001'', content)
     \<and> trailing_newlines content = 1"
proof -
  let ?hi = "header_index [PStr ''id'', PStr ''title'', PStr ''notes'']"
  let ?r = "[PInt 1, PStr ''T'', PStr ''Some notes '']"
  have "map_sum id fst (row_document default_args some_env ?hi ?r) = Inr ''00001''"
    by code_simp
  then obtain content where doc: "row_document default_args some_env ?hi ?r = Inr (''00001'', content)"
    by (cases "row_document default_args some_env ?hi ?r") auto
  have b: "body_lines default_args ?hi ?r ''00001'' \<noteq> []" by code_simp
  from document_ends [OF doc] b have "trailing_newlines content = 1" by auto
  with doc show ?thesis by blast
qed


end
